theory Spec2Isabelle
  imports Main "HOL-Library.Multiset"
begin

text \<open>
  The doctor directory's hook \<open>useDoctorFinder\<close> (\<open>src/hooks/useDoctorFinder.ts\<close>):
  the normalisation of raw records with \<open>parseFee\<close> and \<open>parseExperience\<close>, the
  filter state with its initialisation from and projection to the URL query parameters,
  and the derived lists \<open>filteredDoctors\<close> and \<open>suggestions\<close>. The definitions
  follow the TypeScript source; the built-in operations it calls are modelled after
  ECMAScript and the URL standard.
\<close>

section \<open>Strings\<close>

text \<open>
  A JavaScript string is a sequence of UTF-16 code units; it is modelled as the list of
  their numeric values. \<open>ascii\<close> turns a literal of 7-bit characters into that form.
  An empty string is the only falsy string (\<open>!s\<close>, \<open>if (s)\<close>, \<open>s || d\<close>).
\<close>

type_synonym jsstring = "nat list"

definition ascii :: "string \<Rightarrow> jsstring" where
  "ascii s = map of_char s"

text \<open>The regular-expression class \<open>[0-9]\<close>, also the digit escape without the unicode flag: U+0030 to U+0039.\<close>

definition isDigit :: "nat \<Rightarrow> bool" where
  "isDigit c = (48 \<le> c \<and> c \<le> 57)"

text \<open>The class \<open>[0-9.]\<close> whose complement \<open>parseFee\<close> deletes; U+002E is the full stop.\<close>

definition isDigitOrPoint :: "nat \<Rightarrow> bool" where
  "isDigitOrPoint c = (isDigit c \<or> c = 46)"

text \<open>
  The code units that \<open>String.prototype.trim\<close> and the first step of \<open>parseInt\<close>
  remove: ECMAScript's WhiteSpace and LineTerminator.
\<close>

definition isStrWhiteSpaceChar :: "nat \<Rightarrow> bool" where
  "isStrWhiteSpaceChar c =
     (c \<in> {9, 10, 11, 12, 13, 32, 160, 5760, 8232, 8233, 8239, 8287, 12288, 65279}
      \<or> (8192 \<le> c \<and> c \<le> 8202))"

definition trimStart :: "jsstring \<Rightarrow> jsstring" where
  "trimStart s = dropWhile isStrWhiteSpaceChar s"


text \<open>\<open>String.prototype.includes\<close>: the argument occurs as a contiguous run of code units.\<close>

fun startsWith :: "'a list \<Rightarrow> 'a list \<Rightarrow> bool" where
  "startsWith s [] = True"
| "startsWith [] (y # ys) = False"
| "startsWith (x # xs) (y # ys) = (x = y \<and> startsWith xs ys)"

fun includesStr :: "'a list \<Rightarrow> 'a list \<Rightarrow> bool" where
  "includesStr [] searchString = (searchString = [])"
| "includesStr (x # xs) searchString = (startsWith (x # xs) searchString \<or> includesStr xs searchString)"

text \<open>
  \<open>String.prototype.toLowerCase\<close> is the engine's Unicode case mapping. The functions
  below that call it take it as their first argument \<open>toLowerCase\<close>, so every theorem
  about them holds for the engine's mapping, whatever it does to a code unit.
  \<open>asciiLower\<close> is that mapping on strings of 7-bit characters.
\<close>

definition asciiLower :: "jsstring \<Rightarrow> jsstring" where
  "asciiLower s = map (\<lambda>c. if 65 \<le> c \<and> c \<le> 90 then c + 32 else c) s"


text \<open>
  The engine's mapping on strings of Basic Latin and of the letters of the Greek
  alphabet (U+0391 to U+03A9, U+03B1 to U+03C9): an upper-case letter becomes the
  lower-case letter 32 places on, except that capital sigma (U+03A3) becomes final
  sigma (U+03C2) where Unicode's Final_Sigma condition holds and small sigma (U+03C3)
  elsewhere; every other code unit stays. The condition: before the sigma stands a
  cased letter, with only case-ignorable characters between, and after it stands no
  cased letter reached over case-ignorable characters alone. Code units outside these
  two blocks are left as they are here; the engine maps some of them.
\<close>

definition isUpperLatin :: "nat \<Rightarrow> bool" where
  "isUpperLatin c = (65 \<le> c \<and> c \<le> 90)"







text \<open>
  The conversion of a string to a scalar-value string, which every argument of a
  \<open>URLSearchParams\<close> method undergoes: a surrogate code unit that is not part of a
  pair (a high surrogate followed by a low one) becomes U+FFFD.
\<close>

definition isHighSurrogate :: "nat \<Rightarrow> bool" where
  "isHighSurrogate c = (55296 \<le> c \<and> c \<le> 56319)"

definition isLowSurrogate :: "nat \<Rightarrow> bool" where
  "isLowSurrogate c = (56320 \<le> c \<and> c \<le> 57343)"

fun toUSVString :: "jsstring \<Rightarrow> jsstring" where
  "toUSVString [] = []"
| "toUSVString [c] = (if isHighSurrogate c \<or> isLowSurrogate c then [65533] else [c])"
| "toUSVString (c # d # r) =
     (if isHighSurrogate c \<and> isLowSurrogate d then c # d # toUSVString r
      else if isHighSurrogate c \<or> isLowSurrogate c then 65533 # toUSVString (d # r)
      else c # toUSVString (d # r))"

definition wellFormed :: "jsstring \<Rightarrow> bool" where
  "wellFormed s = (toUSVString s = s)"

section \<open>Numbers\<close>

text \<open>
  A JavaScript number is an IEEE 754 double. The values this program computes are the
  results of \<open>parseInt\<close>, the constants \<open>0\<close> and \<open>Infinity\<close>, and differences
  of such values: integers that a double represents, the two infinities and NaN.
  Negative zero is not told apart from zero (\<open>-0 !== 0\<close> is false).
\<close>

datatype number = Fin int | PosInf | NegInf | NaN

definition isNaN :: "number \<Rightarrow> bool" where
  "isNaN v = (v = NaN)"

fun bitLength :: "nat \<Rightarrow> nat" where
  "bitLength n = (if n = 0 then 0 else Suc (bitLength (n div 2)))"

declare bitLength.simps [simp del]

text \<open>
  The Number value for a non-negative mathematical integer: the integer itself below
  \<open>2 ^ 53\<close>; otherwise the nearest value with a 53-bit significand, a tie going to
  the even significand, and \<open>Infinity\<close> once that reaches \<open>2 ^ 1024\<close>.
\<close>

definition toNumber :: "nat \<Rightarrow> number" where
  "toNumber n =
     (if n < 2 ^ 53 then Fin (int n)
      else let e = bitLength n - 53;
               q = n div 2 ^ e;
               r = n mod 2 ^ e;
               h = 2 ^ (e - 1);
               q' = (if h < r \<or> (r = h \<and> odd q) then q + 1 else q)
           in if 2 ^ 1024 \<le> q' * 2 ^ e then PosInf else Fin (int (q' * 2 ^ e)))"

fun negate :: "number \<Rightarrow> number" where
  "negate (Fin i) = Fin (- i)"
| "negate PosInf = NegInf"
| "negate NegInf = PosInf"
| "negate NaN = NaN"

definition toNumberInt :: "int \<Rightarrow> number" where
  "toNumberInt i = (if i < 0 then negate (toNumber (nat (- i))) else toNumber (nat i))"

text \<open>
  The operator \<open>-\<close>: the exact difference, rounded. \<open>Infinity - Infinity\<close> is NaN.
\<close>

fun subtract :: "number \<Rightarrow> number \<Rightarrow> number" where
  "subtract NaN y = NaN"
| "subtract x NaN = NaN"
| "subtract (Fin a) (Fin b) = toNumberInt (a - b)"
| "subtract (Fin a) PosInf = NegInf"
| "subtract (Fin a) NegInf = PosInf"
| "subtract PosInf (Fin b) = PosInf"
| "subtract NegInf (Fin b) = NegInf"
| "subtract PosInf PosInf = NaN"
| "subtract NegInf NegInf = NaN"
| "subtract PosInf NegInf = PosInf"
| "subtract NegInf PosInf = NegInf"

fun isPositive :: "number \<Rightarrow> bool" where
  "isPositive (Fin i) = (0 < i)"
| "isPositive PosInf = True"
| "isPositive NegInf = False"
| "isPositive NaN = False"

section \<open>parseInt, parseFee, parseExperience\<close>

text \<open>The mathematical integer that a string of decimal digits denotes.\<close>

definition digitsVal :: "jsstring \<Rightarrow> nat" where
  "digitsVal ds = foldl (\<lambda>acc c. 10 * acc + (c - 48)) 0 ds"

text \<open>
  \<open>parseInt(string, 10)\<close>: leading white space is dropped, one sign is read, the
  longest prefix of decimal digits is the numeral; with no digit there the result is NaN.
  An engine may replace the digits after the twentieth by zeros; this model never does.
\<close>

definition parseInt10 :: "jsstring \<Rightarrow> number" where
  "parseInt10 string =
     (let S = trimStart string;
          sign = (case S of [] \<Rightarrow> 1 | c # _ \<Rightarrow> if c = 45 then - 1 else (1::int));
          S = (case S of [] \<Rightarrow> S | c # r \<Rightarrow> if c = 43 \<or> c = 45 then r else S);
          Z = takeWhile isDigit S
      in if Z = [] then NaN else toNumberInt (sign * int (digitsVal Z)))"

definition parseFee :: "jsstring \<Rightarrow> number" where
  "parseFee feeString =
     (if feeString = [] then PosInf
      else let numberString = filter isDigitOrPoint feeString;
               fee = parseInt10 numberString
           in if isNaN fee then PosInf else fee)"

text \<open>
  The match of \<open>expString\<close> against one or more digits: null when the string has no digit, else an array whose
  element 0 is the leftmost match, which is greedy.
\<close>

definition matchDigits :: "jsstring \<Rightarrow> jsstring option" where
  "matchDigits s =
     (let r = dropWhile (\<lambda>c. \<not> isDigit c) s
      in if r = [] then None else Some (takeWhile isDigit r))"

definition parseExperience :: "jsstring \<Rightarrow> number" where
  "parseExperience expString =
     (if expString = [] then Fin 0
      else let exp = (case matchDigits expString of
                        Some m0 \<Rightarrow> parseInt10 m0
                      | None \<Rightarrow> Fin 0)
           in if isNaN exp then Fin 0 else exp)"

section \<open>Raw and processed records\<close>

definition VIDEO_CONSULT :: jsstring where
  "VIDEO_CONSULT = ascii ''Video Consult''"

definition IN_CLINIC :: jsstring where
  "IN_CLINIC = ascii ''In Clinic''"

text \<open>An optional property that may also hold null (\<open>photo?: string | null\<close>).\<close>

datatype 'a nullable = Absent | Null | Present 'a

record RawAddress =
  raw_locality :: "jsstring option"
  raw_city :: "jsstring option"
  raw_address_line1 :: "jsstring option"
  raw_location :: "jsstring option"
  raw_logo_url :: "jsstring option"

record RawClinic =
  raw_clinic_name :: jsstring
  raw_clinic_address :: "RawAddress option"

record RawDoctorData =
  raw_id :: jsstring
  raw_name :: jsstring
  raw_name_initials :: "jsstring option"
  raw_photo :: "jsstring nullable"
  raw_doctor_introduction :: "jsstring option"
  raw_specialities :: "jsstring list"
  raw_fees :: jsstring
  raw_experience :: jsstring
  raw_languages :: "jsstring list option"
  raw_clinic :: "RawClinic option"
  raw_video_consult :: bool
  raw_in_clinic :: bool

record Address =
  locality :: "jsstring option"
  city :: "jsstring option"
  addressLine1 :: "jsstring option"
  logoUrl :: "jsstring option"

record Doctor =
  doc_id :: jsstring
  name :: jsstring
  initials :: "jsstring option"
  photo :: "jsstring nullable"
  introduction :: "jsstring option"
  specialityNames :: "jsstring list"
  parsedFees :: number
  parsedExperience :: number
  consultationModes :: "jsstring list"
  video_consult :: bool
  in_clinic :: bool
  languages :: "jsstring list option"
  clinicName :: "jsstring option"
  address :: "Address option"

text \<open>
  The callback of \<open>rawData.map\<close> in \<open>fetchData\<close>. A \<open>specialities\<close> entry is an
  object with the one property \<open>name\<close>; the record keeps that name in its place.
\<close>

definition processDoctor :: "RawDoctorData \<Rightarrow> Doctor" where
  "processDoctor rawDoc =
     (let modes = [];
          modes = (if raw_video_consult rawDoc then modes @ [VIDEO_CONSULT] else modes);
          modes = (if raw_in_clinic rawDoc then modes @ [IN_CLINIC] else modes);
          clinicName = map_option raw_clinic_name (raw_clinic rawDoc);
          address = (case raw_clinic rawDoc of
                       None \<Rightarrow> None
                     | Some c \<Rightarrow>
                         (case raw_clinic_address c of
                            None \<Rightarrow> None
                          | Some a \<Rightarrow>
                              Some \<lparr>locality = raw_locality a, city = raw_city a,
                                    addressLine1 = raw_address_line1 a,
                                    logoUrl = raw_logo_url a\<rparr>))
      in \<lparr>doc_id = raw_id rawDoc,
          name = raw_name rawDoc,
          initials = raw_name_initials rawDoc,
          photo = raw_photo rawDoc,
          introduction = raw_doctor_introduction rawDoc,
          specialityNames = raw_specialities rawDoc,
          parsedFees = parseFee (raw_fees rawDoc),
          parsedExperience = parseExperience (raw_experience rawDoc),
          consultationModes = modes,
          video_consult = raw_video_consult rawDoc,
          in_clinic = raw_in_clinic rawDoc,
          languages = raw_languages rawDoc,
          clinicName = clinicName,
          address = address\<rparr>)"

definition processedDoctors :: "RawDoctorData list \<Rightarrow> Doctor list" where
  "processedDoctors rawData = map processDoctor rawData"

section \<open>URL search parameters\<close>

text \<open>
  A \<open>URLSearchParams\<close> object is the list of its name-value pairs in order;
  \<open>get\<close> answers the first value of a name (null when there is none), \<open>getAll\<close>
  all of them in order, \<open>append\<close> adds a pair at the end, and \<open>set\<close> overwrites
  the first pair of the name and deletes its other pairs, or appends. The arguments are
  converted to scalar-value strings first.
\<close>

type_synonym URLSearchParams = "(jsstring \<times> jsstring) list"

definition params_get :: "jsstring \<Rightarrow> URLSearchParams \<Rightarrow> jsstring option" where
  "params_get k ps = map_of ps (toUSVString k)"

definition params_getAll :: "jsstring \<Rightarrow> URLSearchParams \<Rightarrow> jsstring list" where
  "params_getAll k ps = map snd (filter (\<lambda>p. fst p = toUSVString k) ps)"

definition params_append :: "jsstring \<Rightarrow> jsstring \<Rightarrow> URLSearchParams \<Rightarrow> URLSearchParams" where
  "params_append k v ps = ps @ [(toUSVString k, toUSVString v)]"

fun setPair :: "jsstring \<Rightarrow> jsstring \<Rightarrow> URLSearchParams \<Rightarrow> URLSearchParams" where
  "setPair k v [] = [(k, v)]"
| "setPair k v (p # ps) =
     (if fst p = k then (k, v) # filter (\<lambda>p'. fst p' \<noteq> k) ps else p # setPair k v ps)"

definition params_set :: "jsstring \<Rightarrow> jsstring \<Rightarrow> URLSearchParams \<Rightarrow> URLSearchParams" where
  "params_set k v ps = setPair (toUSVString k) (toUSVString v) ps"

definition SEARCH :: jsstring where
  "SEARCH = ascii ''search''"

definition CONSULTATION :: jsstring where
  "CONSULTATION = ascii ''consultation''"

definition SPECIALTY :: jsstring where
  "SPECIALTY = ascii ''specialty''"

definition SORT :: jsstring where
  "SORT = ascii ''sort''"

definition FEES :: jsstring where
  "FEES = ascii ''fees''"

definition EXPERIENCE :: jsstring where
  "EXPERIENCE = ascii ''experience''"

section \<open>The filter state\<close>

text \<open>
  A JavaScript \<open>Set\<close> of strings is the list of its members in insertion order,
  without repetition: \<open>forEach\<close> visits them in that order.
\<close>

definition setAdd :: "'a \<Rightarrow> 'a list \<Rightarrow> 'a list" where
  "setAdd x s = (if x \<in> set s then s else s @ [x])"

definition setDelete :: "'a \<Rightarrow> 'a list \<Rightarrow> 'a list" where
  "setDelete x s = filter (\<lambda>y. y \<noteq> x) s"

definition newSet :: "'a list \<Rightarrow> 'a list" where
  "newSet xs = foldl (\<lambda>s x. setAdd x s) [] xs"

text \<open>
  The four \<open>useState\<close> cells of \<open>useDoctorFinder\<close>. At run time the consultation type
  and the sort options are strings (null is \<open>None\<close>): the casts in the initialisers
  check nothing.
\<close>

record FilterState =
  searchTerm :: jsstring
  consultationType :: "jsstring option"
  selectedSpecialties :: "jsstring list"
  sortOptions :: "jsstring list"

text \<open>The initialisers, lines 55 to 65; \<open>x || d\<close> is \<open>d\<close> when \<open>x\<close> is null or empty.\<close>

definition initialState :: "URLSearchParams \<Rightarrow> FilterState" where
  "initialState searchParams =
     \<lparr>searchTerm =
        (case params_get SEARCH searchParams of
           None \<Rightarrow> []
         | Some v \<Rightarrow> if v \<noteq> [] then v else []),
      consultationType =
        (case params_get CONSULTATION searchParams of
           None \<Rightarrow> None
         | Some v \<Rightarrow> if v \<noteq> [] then Some v else None),
      selectedSpecialties = newSet (params_getAll SPECIALTY searchParams),
      sortOptions = params_getAll SORT searchParams\<rparr>"

text \<open>The effect of lines 126 to 136, which rebuilds the query parameters from the state.\<close>

definition updateSearchParams :: "FilterState \<Rightarrow> URLSearchParams" where
  "updateSearchParams st =
     (let params = [];
          params = (if searchTerm st \<noteq> [] then params_set SEARCH (searchTerm st) params
                    else params);
          params = (case consultationType st of
                      None \<Rightarrow> params
                    | Some t \<Rightarrow> if t \<noteq> [] then params_set CONSULTATION t params else params);
          params = foldl (\<lambda>p spec. params_append SPECIALTY spec p) params (selectedSpecialties st);
          params = foldl (\<lambda>p opt. params_append SORT opt p) params (sortOptions st)
      in params)"

definition handleSetSearchTerm :: "jsstring \<Rightarrow> FilterState \<Rightarrow> FilterState" where
  "handleSetSearchTerm term st = st\<lparr>searchTerm := term\<rparr>"

definition handleSetConsultationType :: "jsstring option \<Rightarrow> FilterState \<Rightarrow> FilterState" where
  "handleSetConsultationType type st = st\<lparr>consultationType := type\<rparr>"

definition handleToggleSpecialty :: "jsstring \<Rightarrow> FilterState \<Rightarrow> FilterState" where
  "handleToggleSpecialty specialty st =
     (let newSet = selectedSpecialties st
      in st\<lparr>selectedSpecialties :=
              (if specialty \<in> set newSet then setDelete specialty newSet
               else setAdd specialty newSet)\<rparr>)"

text \<open>The updater that \<open>handleToggleSortOption\<close> passes to \<open>setSortOptions\<close>.\<close>

definition toggleSortOption :: "jsstring \<Rightarrow> jsstring list \<Rightarrow> jsstring list" where
  "toggleSortOption option prev =
     (if option \<in> set prev then filter (\<lambda>item. item \<noteq> option) prev
      else prev @ [option])"

definition handleToggleSortOption :: "jsstring \<Rightarrow> FilterState \<Rightarrow> FilterState" where
  "handleToggleSortOption option st = st\<lparr>sortOptions := toggleSortOption option (sortOptions st)\<rparr>"

definition updateSearchTermFromSuggestion :: "jsstring \<Rightarrow> FilterState \<Rightarrow> FilterState" where
  "updateSearchTermFromSuggestion term st = st\<lparr>searchTerm := term\<rparr>"

definition clearFilters :: "FilterState \<Rightarrow> FilterState" where
  "clearFilters st =
     st\<lparr>searchTerm := [], consultationType := None, selectedSpecialties := [], sortOptions := []\<rparr>"

text \<open>
  The states the hook can be in when it starts from the query parameters
  \<open>searchParams\<close>: initialised from them, then changed by its handlers. The handlers'
  parameter types are checked at compile time, so a caller passes
  \<open>handleSetConsultationType\<close> one of the two modes or null, and
  \<open>handleToggleSortOption\<close> one of the two criteria.
\<close>

inductive reachableFrom :: "URLSearchParams \<Rightarrow> FilterState \<Rightarrow> bool"
  for searchParams :: URLSearchParams where
  r_init: "reachableFrom searchParams (initialState searchParams)"
| r_search: "reachableFrom searchParams st \<Longrightarrow> reachableFrom searchParams (handleSetSearchTerm term st)"
| r_consultation:
    "reachableFrom searchParams st \<Longrightarrow> type \<in> {None, Some VIDEO_CONSULT, Some IN_CLINIC} \<Longrightarrow>
     reachableFrom searchParams (handleSetConsultationType type st)"
| r_specialty:
    "reachableFrom searchParams st \<Longrightarrow> reachableFrom searchParams (handleToggleSpecialty specialty st)"
| r_sort:
    "reachableFrom searchParams st \<Longrightarrow> option \<in> {FEES, EXPERIENCE} \<Longrightarrow>
     reachableFrom searchParams (handleToggleSortOption option st)"
| r_suggestion:
    "reachableFrom searchParams st \<Longrightarrow>
     reachableFrom searchParams (updateSearchTermFromSuggestion term st)"
| r_clear: "reachableFrom searchParams st \<Longrightarrow> reachableFrom searchParams (clearFilters st)"

section \<open>The query engine\<close>

text \<open>The comparator passed to \<open>doctors.sort\<close>, lines 171 to 190.\<close>

fun compareDoctors :: "jsstring list \<Rightarrow> Doctor \<Rightarrow> Doctor \<Rightarrow> number" where
  "compareDoctors [] a b = Fin 0"
| "compareDoctors (option # rest) a b =
     (let comparison =
            (if option = FEES then subtract (parsedFees a) (parsedFees b)
             else if option = EXPERIENCE then subtract (parsedExperience b) (parsedExperience a)
             else Fin 0)
      in if comparison \<noteq> Fin 0 then comparison else compareDoctors rest a b)"

text \<open>
  \<open>Array.prototype.sort\<close> reads a comparator's result through \<open>SortCompare\<close>, which
  takes NaN for \<open>+0\<close>, and is stable: modelled as the insertion sort that puts an
  element behind exactly the later elements it compares greater than.
\<close>

definition SortCompare :: "('a \<Rightarrow> 'a \<Rightarrow> number) \<Rightarrow> 'a \<Rightarrow> 'a \<Rightarrow> number" where
  "SortCompare comparefn x y = (let v = comparefn x y in if isNaN v then Fin 0 else v)"

fun insertSorted :: "('a \<Rightarrow> 'a \<Rightarrow> number) \<Rightarrow> 'a \<Rightarrow> 'a list \<Rightarrow> 'a list" where
  "insertSorted comparefn x [] = [x]"
| "insertSorted comparefn x (y # ys) =
     (if isPositive (SortCompare comparefn x y) then y # insertSorted comparefn x ys
      else x # y # ys)"

definition arraySort :: "('a \<Rightarrow> 'a \<Rightarrow> number) \<Rightarrow> 'a list \<Rightarrow> 'a list" where
  "arraySort comparefn xs = foldr (insertSorted comparefn) xs []"

text \<open>The memoised \<open>filteredDoctors\<close>, lines 148 to 194.\<close>

definition filteredDoctors ::
  "(jsstring \<Rightarrow> jsstring) \<Rightarrow> Doctor list \<Rightarrow> FilterState \<Rightarrow> Doctor list" where
  "filteredDoctors toLowerCase allDoctors st =
     (let doctors = allDoctors;
          doctors =
            (if searchTerm st \<noteq> [] then
               (let lowerSearchTerm = toLowerCase (searchTerm st)
                in filter (\<lambda>doc. includesStr (toLowerCase (name doc)) lowerSearchTerm) doctors)
             else doctors);
          doctors =
            (case consultationType st of
               None \<Rightarrow> doctors
             | Some t \<Rightarrow>
                 if t \<noteq> [] then filter (\<lambda>doc. t \<in> set (consultationModes doc)) doctors
                 else doctors);
          doctors =
            (if selectedSpecialties st \<noteq> [] then
               filter (\<lambda>doc. list_ex (\<lambda>specName. specName \<in> set (selectedSpecialties st))
                                (specialityNames doc)) doctors
             else doctors);
          doctors =
            (if sortOptions st \<noteq> [] then arraySort (compareDoctors (sortOptions st)) doctors
             else doctors)
      in doctors)"




section \<open>The specification's wording\<close>

text \<open>
  The comparator chain as the specification words it: numeric order with \<open>Infinity\<close>
  above every finite value and equal to itself, fees ascending, experience descending,
  the first criterion that tells two records apart deciding. The result is negative
  when the first record goes first, positive when the second does, zero on a tie.
\<close>

fun specLess :: "number \<Rightarrow> number \<Rightarrow> bool" where
  "specLess (Fin a) (Fin b) = (a < b)"
| "specLess (Fin a) PosInf = True"
| "specLess NegInf (Fin b) = True"
| "specLess NegInf PosInf = True"
| "specLess x y = False"

definition specCriterion :: "jsstring \<Rightarrow> Doctor \<Rightarrow> Doctor \<Rightarrow> int" where
  "specCriterion criterion a b =
     (if criterion = FEES then
        (if specLess (parsedFees a) (parsedFees b) then - 1
         else if specLess (parsedFees b) (parsedFees a) then 1 else 0)
      else if criterion = EXPERIENCE then
        (if specLess (parsedExperience b) (parsedExperience a) then - 1
         else if specLess (parsedExperience a) (parsedExperience b) then 1 else 0)
      else 0)"

fun specChain :: "jsstring list \<Rightarrow> Doctor \<Rightarrow> Doctor \<Rightarrow> int" where
  "specChain [] a b = 0"
| "specChain (criterion # rest) a b =
     (if specCriterion criterion a b \<noteq> 0 then specCriterion criterion a b
      else specChain rest a b)"

text \<open>The sign of a number, which is all that the sort uses of a comparator result.\<close>

fun signOf :: "number \<Rightarrow> int" where
  "signOf (Fin i) = sgn i"
| "signOf PosInf = 1"
| "signOf NegInf = - 1"
| "signOf NaN = 0"

text \<open>The values \<open>parseFee\<close> and \<open>parseExperience\<close> return: \<open>Infinity\<close> or a non-negative integer.\<close>

definition canonicalNumber :: "number \<Rightarrow> bool" where
  "canonicalNumber v = (v = PosInf \<or> (\<exists>n. v = Fin (int n)))"


text \<open>
  Containment as a case-insensitive substring, as the specification words it: some
  contiguous run of the name equals the search text up to the case of its letters. Two
  code units are equal up to case when they are the same code unit or the upper-case
  and the lower-case form of one Basic Latin letter.
\<close>

definition sameIgnoringCase :: "nat \<Rightarrow> nat \<Rightarrow> bool" where
  "sameIgnoringCase c d =
     (c = d \<or> (isUpperLatin c \<and> d = c + 32) \<or> (isUpperLatin d \<and> c = d + 32))"

fun startsWithIgnoringCase :: "jsstring \<Rightarrow> jsstring \<Rightarrow> bool" where
  "startsWithIgnoringCase s [] = True"
| "startsWithIgnoringCase [] (y # ys) = False"
| "startsWithIgnoringCase (x # xs) (y # ys) = (sameIgnoringCase x y \<and> startsWithIgnoringCase xs ys)"

fun includesIgnoringCase :: "jsstring \<Rightarrow> jsstring \<Rightarrow> bool" where
  "includesIgnoringCase [] searchText = (searchText = [])"
| "includesIgnoringCase (x # xs) searchText =
     (startsWithIgnoringCase (x # xs) searchText \<or> includesIgnoringCase xs searchText)"



text \<open>A state all of whose strings are well-formed UTF-16.\<close>

definition wellFormedState :: "FilterState \<Rightarrow> bool" where
  "wellFormedState st =
     (wellFormed (searchTerm st)
      \<and> (case consultationType st of None \<Rightarrow> True | Some t \<Rightarrow> wellFormed t)
      \<and> list_all wellFormed (selectedSpecialties st)
      \<and> list_all wellFormed (sortOptions st))"

section \<open>Sample records\<close>

text \<open>A raw record as the API sends it, with the optional properties left out.\<close>

definition sampleRaw ::
  "jsstring \<Rightarrow> jsstring list \<Rightarrow> jsstring \<Rightarrow> jsstring \<Rightarrow> bool \<Rightarrow> bool \<Rightarrow> RawDoctorData" where
  "sampleRaw nm specs fee exp video clinic =
     \<lparr>raw_id = nm, raw_name = nm, raw_name_initials = None, raw_photo = Absent,
      raw_doctor_introduction = None, raw_specialities = specs, raw_fees = fee,
      raw_experience = exp, raw_languages = None, raw_clinic = None,
      raw_video_consult = video, raw_in_clinic = clinic\<rparr>"



definition unparseableFeeDoctors :: "Doctor list" where
  "unparseableFeeDoctors = processedDoctors
     [sampleRaw (ascii ''Dr. Susan'') [ascii ''Dermatologist''] []
        (ascii ''2 Years of experience'') True True,
      sampleRaw (ascii ''Dr. Ivan'') [ascii ''Dentist''] []
        (ascii ''10 Years of experience'') True False]"



text \<open>The state after the user picks the fees criterion and then the experience criterion.\<close>

definition feesThenExperience :: FilterState where
  "feesThenExperience =
     handleToggleSortOption EXPERIENCE (handleToggleSortOption FEES (initialState []))"


section \<open>Rounding to a double\<close>

lemma ascii_Nil [simp]: "ascii [] = []"
  by (simp add: ascii_def)

lemma ascii_Cons [simp]: "ascii (c # cs) = of_char c # ascii cs"
  by (simp add: ascii_def)

lemma bitLength_bounds: "n \<noteq> 0 \<Longrightarrow> 2 ^ (bitLength n - 1) \<le> n \<and> n < 2 ^ bitLength n"
proof (induction n rule: bitLength.induct)
  case (1 n)
  show ?case
  proof (cases "n div 2 = 0")
    case True
    with "1.prems" have "n = 1" by presburger
    then show ?thesis by (simp add: bitLength.simps)
  next
    case False
    from "1.IH" [OF "1.prems" False]
    have lo: "2 ^ (bitLength (n div 2) - 1) \<le> n div 2" and hi: "n div 2 < 2 ^ bitLength (n div 2)"
      by simp_all
    have pos: "bitLength (n div 2) \<noteq> 0"
      using False by (simp add: bitLength.simps)
    have eq: "bitLength n = Suc (bitLength (n div 2))"
      using "1.prems" by (subst bitLength.simps) simp
    have "2 * 2 ^ (bitLength (n div 2) - 1) \<le> n" using lo by presburger
    moreover have "2 * 2 ^ (bitLength (n div 2) - 1) = (2::nat) ^ bitLength (n div 2)"
      using pos by (cases "bitLength (n div 2)") simp_all
    moreover have "n < 2 * 2 ^ bitLength (n div 2)" using hi by presburger
    ultimately show ?thesis by (simp add: eq)
  qed
qed

lemma toNumber_exact: "n < 2 ^ 53 \<Longrightarrow> toNumber n = Fin (int n)"
  by (simp add: toNumber_def)

lemma toNumber_cases: "toNumber n = PosInf \<or> (\<exists>m. toNumber n = Fin (int m))"
  by (simp only: toNumber_def Let_def split: if_split) blast

lemma toNumber_not_NaN [simp]: "toNumber n \<noteq> NaN"
  using toNumber_cases [of n] by auto

lemma toNumber_not_NegInf [simp]: "toNumber n \<noteq> NegInf"
  using toNumber_cases [of n] by auto

lemma toNumberInt_int [simp]: "toNumberInt (int n) = toNumber n"
  by (simp add: toNumberInt_def)

lemma toNumber_finite:
  assumes "n < 2 ^ 1024 - 2 ^ 971"
  shows "\<exists>m. toNumber n = Fin (int m)"
proof -
  define e where "e = bitLength n - 53"
  define q where "q = n div 2 ^ e"
  define q' where "q' = (if 2 ^ (e - 1) < n mod 2 ^ e \<or> (n mod 2 ^ e = 2 ^ (e - 1) \<and> odd q)
                         then q + 1 else q)"
  have bound: "n + 2 ^ 971 < 2 ^ 1024"
    using assms by (simp only: less_diff_conv)
  have small: "\<not> 2 ^ 1024 \<le> q' * 2 ^ e"
  proof (cases "n = 0")
    case True
    then have "q' * 2 ^ e \<le> 2 ^ 971"
      by (simp add: q'_def q_def e_def bitLength.simps del: power_numeral)
    then show ?thesis using bound by linarith
  next
    case False
    have "2 ^ (bitLength n - 1) \<le> n" using bitLength_bounds [OF False] by simp
    also have "n < 2 ^ 1024" using bound by linarith
    finally have "(2::nat) ^ (bitLength n - 1) < 2 ^ 1024" .
    then have "bitLength n - 1 < 1024" by (simp only: power_strict_increasing_iff one_less_numeral_iff semiring_norm)
    then have e: "e \<le> 971" by (simp add: e_def)
    have "q * 2 ^ e \<le> n" by (simp add: q_def)
    moreover have "(2::nat) ^ e \<le> 2 ^ 971" using e by (rule power_increasing) simp
    moreover have "q' * 2 ^ e \<le> q * 2 ^ e + 2 ^ e" by (simp add: q'_def algebra_simps)
    ultimately show ?thesis using bound by linarith
  qed
  show ?thesis
  proof (cases "n < 2 ^ 53")
    case True
    then show ?thesis by (simp only: toNumber_def if_True) blast
  next
    case False
    have "toNumber n = Fin (int (q' * 2 ^ e))"
      using False small
      by (simp only: toNumber_def Let_def if_False e_def [symmetric] q_def [symmetric]
            q'_def [symmetric])
    then show ?thesis by blast
  qed
qed

lemma toNumber_overflow:
  assumes "2 ^ 1024 \<le> n"
  shows "toNumber n = PosInf"
proof -
  define e where "e = bitLength n - 53"
  define q where "q = n div 2 ^ e"
  define q' where "q' = (if 2 ^ (e - 1) < n mod 2 ^ e \<or> (n mod 2 ^ e = 2 ^ (e - 1) \<and> odd q)
                         then q + 1 else q)"
  have "(0::nat) < 2 ^ 1024" by (rule zero_less_power) simp
  then have n0: "n \<noteq> 0" using assms by linarith
  have "(2::nat) ^ 53 \<le> 2 ^ 1024" by (rule power_increasing) simp_all
  then have big: "\<not> n < 2 ^ 53" using assms by linarith
  have lo: "2 ^ (bitLength n - 1) \<le> n" and hi: "n < 2 ^ bitLength n"
    using bitLength_bounds [OF n0] by simp_all
  have "(2::nat) ^ 1024 < 2 ^ bitLength n" using assms hi by linarith
  then have L: "1024 < bitLength n"
    by (simp only: power_strict_increasing_iff one_less_numeral_iff semiring_norm)
  have split: "bitLength n - 1 = 52 + e" using L by (simp add: e_def)
  have "(2::nat) ^ 52 * 2 ^ e \<le> n" using lo by (simp only: split power_add)
  then have "2 ^ 52 \<le> q" unfolding q_def
    by (simp only: less_eq_div_iff_mult_less_eq zero_less_power zero_less_numeral)
  moreover have "972 \<le> e" using L by (simp add: e_def)
  then have "(2::nat) ^ 972 \<le> 2 ^ e" by (rule power_increasing) simp
  ultimately have "(2::nat) ^ 52 * 2 ^ 972 \<le> q * 2 ^ e" by (rule mult_le_mono)
  moreover have "(2::nat) ^ 52 * 2 ^ 972 = 2 ^ 1024"
    by (simp only: power_add [symmetric]) simp
  moreover have "q * 2 ^ e \<le> q' * 2 ^ e" by (simp add: q'_def)
  ultimately have "(2::nat) ^ 1024 \<le> q' * 2 ^ e" by linarith
  with big show ?thesis
    by (simp only: toNumber_def Let_def if_False if_True e_def [symmetric] q_def [symmetric]
          q'_def [symmetric])
qed

section \<open>Parsing fees and experience\<close>

lemma isDigit_isDigitOrPoint: "isDigit c \<Longrightarrow> isDigitOrPoint c"
  by (simp add: isDigitOrPoint_def)

lemma isDigitOrPoint_plain:
  "isDigitOrPoint c \<Longrightarrow> \<not> isStrWhiteSpaceChar c \<and> c \<noteq> 43 \<and> c \<noteq> 45"
  by (auto simp add: isDigitOrPoint_def isDigit_def isStrWhiteSpaceChar_def)

lemma parseInt10_plain:
  assumes "s = [] \<or> isDigitOrPoint (hd s)"
  shows "parseInt10 s =
           (if takeWhile isDigit s = [] then NaN else toNumber (digitsVal (takeWhile isDigit s)))"
proof (cases s)
  case Nil
  then show ?thesis by (simp add: parseInt10_def trimStart_def)
next
  case (Cons c r)
  with assms have "isDigitOrPoint c" by simp
  from isDigitOrPoint_plain [OF this] show ?thesis
    by (simp add: Cons parseInt10_def trimStart_def Let_def)
qed

lemma parseInt10_digits:
  assumes "ds \<noteq> []" and "list_all isDigit ds"
  shows "parseInt10 ds = toNumber (digitsVal ds)"
proof -
  have all: "takeWhile isDigit ds = ds"
    using assms(2) by (simp add: takeWhile_eq_all_conv list_all_iff)
  have "isDigitOrPoint (hd ds)"
    using assms by (cases ds) (simp_all add: isDigit_isDigitOrPoint)
  then show ?thesis
    using assms(1) by (simp add: parseInt10_plain all)
qed

lemma parseFee_leading_digits:
  "parseFee s =
     (let ds = takeWhile isDigit (filter isDigitOrPoint s)
      in if ds = [] then PosInf else toNumber (digitsVal ds))"
proof (cases "s = []")
  case True
  then show ?thesis by (simp add: parseFee_def)
next
  case False
  define r where "r = filter isDigitOrPoint s"
  have "r = [] \<or> isDigitOrPoint (hd r)"
  proof (cases r)
    case Nil
    then show ?thesis by simp
  next
    case (Cons c cs)
    then have "c \<in> set (filter isDigitOrPoint s)" by (simp add: r_def [symmetric])
    then show ?thesis by (simp add: Cons)
  qed
  from parseInt10_plain [OF this] show ?thesis
    using False by (simp add: parseFee_def Let_def isNaN_def r_def [symmetric])
qed

lemma matchDigits_None: "list_all (\<lambda>c. \<not> isDigit c) s \<Longrightarrow> matchDigits s = None"
  by (simp add: matchDigits_def list_all_iff)

lemma matchDigits_run:
  assumes pre: "list_all (\<lambda>c. \<not> isDigit c) pre"
    and run: "run \<noteq> []" "list_all isDigit run"
    and post: "post = [] \<or> \<not> isDigit (hd post)"
  shows "matchDigits (pre @ run @ post) = Some run"
proof -
  obtain d ds where r: "run = d # ds" using run(1) by (cases run) auto
  have d: "isDigit d" using run(2) by (simp add: r)
  have "dropWhile (\<lambda>c. \<not> isDigit c) (pre @ run @ post) = dropWhile (\<lambda>c. \<not> isDigit c) (run @ post)"
    using pre by (simp add: list_all_iff dropWhile_append2)
  also have "\<dots> = run @ post" using d by (simp add: r)
  finally have drop: "dropWhile (\<lambda>c. \<not> isDigit c) (pre @ run @ post) = run @ post" .
  have "takeWhile isDigit post = []" using post by (cases post) auto
  then have "takeWhile isDigit (run @ post) = run"
    using run(2) by (simp add: list_all_iff takeWhile_append2)
  then show ?thesis using run(1) by (simp add: matchDigits_def drop)
qed

lemma parseExperience_None:
  "list_all (\<lambda>c. \<not> isDigit c) s \<Longrightarrow> parseExperience s = Fin 0"
  by (simp add: parseExperience_def matchDigits_None isNaN_def)

lemma parseExperience_run:
  assumes "list_all (\<lambda>c. \<not> isDigit c) pre" and "run \<noteq> []" and "list_all isDigit run"
    and "post = [] \<or> \<not> isDigit (hd post)"
  shows "parseExperience (pre @ run @ post) = toNumber (digitsVal run)"
  using assms(2)
  by (simp add: parseExperience_def matchDigits_run [OF assms] parseInt10_digits [OF assms(2,3)]
        isNaN_def)

lemma parseExperience_cases:
  "parseExperience s = Fin 0 \<or>
   (\<exists>ds. matchDigits s = Some ds \<and> ds \<noteq> [] \<and> list_all isDigit ds \<and>
      parseExperience s = toNumber (digitsVal ds))"
proof (cases "matchDigits s")
  case None
  then show ?thesis by (simp add: parseExperience_def isNaN_def)
next
  case (Some ds)
  then have ds: "ds = takeWhile isDigit (dropWhile (\<lambda>c. \<not> isDigit c) s)"
    and ne: "dropWhile (\<lambda>c. \<not> isDigit c) s \<noteq> []"
    by (auto simp add: matchDigits_def Let_def split: if_splits)
  have "isDigit (hd (dropWhile (\<lambda>c. \<not> isDigit c) s))"
    using hd_dropWhile [OF ne] by simp
  then have ne': "ds \<noteq> []" using ne by (cases "dropWhile (\<lambda>c. \<not> isDigit c) s") (auto simp add: ds)
  have all: "list_all isDigit ds"
    by (auto simp add: ds list_all_iff dest: set_takeWhileD)
  have s: "s \<noteq> []" using ne by auto
  show ?thesis
    using s ne' all by (simp add: parseExperience_def Some parseInt10_digits isNaN_def)
qed

lemma foldl_digits_bound:
  "list_all isDigit ds \<Longrightarrow>
   foldl (\<lambda>acc c. 10 * acc + (c - 48)) a ds < (a + 1) * 10 ^ length ds"
proof (induction ds arbitrary: a)
  case Nil
  then show ?case by simp
next
  case (Cons d ds)
  from Cons.prems have dd: "isDigit d" and rest: "list_all isDigit ds" by simp_all
  from dd have d: "d - 48 \<le> 9" by (auto simp add: isDigit_def)
  have "foldl (\<lambda>acc c. 10 * acc + (c - 48)) (10 * a + (d - 48)) ds
          < (10 * a + (d - 48) + 1) * 10 ^ length ds"
    by (rule Cons.IH [OF rest])
  also have "\<dots> \<le> (10 * (a + 1)) * 10 ^ length ds"
    using d by (intro mult_le_mono1) simp
  finally show ?case by (simp add: algebra_simps)
qed

lemma digitsVal_bound: "list_all isDigit ds \<Longrightarrow> digitsVal ds < 10 ^ length ds"
  using foldl_digits_bound [of ds 0] by (simp add: digitsVal_def)

lemma foldl_digits_zeros:
  "foldl (\<lambda>acc c. 10 * acc + (c - 48)) (a::nat) (replicate k (48::nat)) = a * 10 ^ k"
  by (induction k arbitrary: a) simp_all

lemma matchDigits_length: "matchDigits s = Some ds \<Longrightarrow> length ds \<le> length s"
proof -
  assume "matchDigits s = Some ds"
  then have "ds = takeWhile isDigit (dropWhile (\<lambda>c. \<not> isDigit c) s)"
    by (auto simp add: matchDigits_def Let_def split: if_splits)
  moreover have "length (takeWhile isDigit (dropWhile (\<lambda>c. \<not> isDigit c) s))
                   \<le> length (dropWhile (\<lambda>c. \<not> isDigit c) s)"
    by (rule length_takeWhile_le)
  moreover have "length (dropWhile (\<lambda>c. \<not> isDigit c) s) \<le> length s"
    by (rule length_dropWhile_le)
  ultimately show ?thesis by simp
qed

lemma parseExperience_short:
  assumes "length s \<le> 308"
  shows "\<exists>n. parseExperience s = Fin (int n)"
proof -
  from parseExperience_cases [of s] show ?thesis
  proof
    assume "parseExperience s = Fin 0"
    then have "parseExperience s = Fin (int 0)" by simp
    then show ?thesis by blast
  next
    assume "\<exists>ds. matchDigits s = Some ds \<and> ds \<noteq> [] \<and> list_all isDigit ds \<and>
              parseExperience s = toNumber (digitsVal ds)"
    then obtain ds where m: "matchDigits s = Some ds" and all: "list_all isDigit ds"
      and eq: "parseExperience s = toNumber (digitsVal ds)" by blast
    have "length ds \<le> 308" using matchDigits_length [OF m] assms by linarith
    then have "(10::nat) ^ length ds \<le> 10 ^ 308" by (rule power_increasing) simp
    moreover have "(10::nat) ^ 308 < 2 ^ 1024 - 2 ^ 971" by simp
    ultimately have "digitsVal ds < 2 ^ 1024 - 2 ^ 971"
      using digitsVal_bound [OF all] by linarith
    from toNumber_finite [OF this] show ?thesis by (simp add: eq)
  qed
qed

lemma parseFee_cases: "parseFee s = PosInf \<or> (\<exists>n. parseFee s = Fin (int n))"
  using toNumber_cases by (simp add: parseFee_leading_digits Let_def)

lemma parseExperience_shape: "parseExperience s = PosInf \<or> (\<exists>n. parseExperience s = Fin (int n))"
proof -
  from parseExperience_cases [of s] show ?thesis
  proof
    assume "parseExperience s = Fin 0"
    then have "parseExperience s = Fin (int 0)" by simp
    then show ?thesis by blast
  next
    assume "\<exists>ds. matchDigits s = Some ds \<and> ds \<noteq> [] \<and> list_all isDigit ds \<and>
              parseExperience s = toNumber (digitsVal ds)"
    then obtain ds where eq: "parseExperience s = toNumber (digitsVal ds)" by blast
    show ?thesis using toNumber_cases [of "digitsVal ds"] by (simp add: eq)
  qed
qed

lemma parseExperience_infinite_beyond:
  "(\<exists>n. parseExperience s = Fin (int n))
   \<or> (\<exists>ds. matchDigits s = Some ds \<and> 2 ^ 1024 - 2 ^ 971 \<le> digitsVal ds
         \<and> parseExperience s = PosInf)"
proof -
  from parseExperience_cases [of s] show ?thesis
  proof
    assume "parseExperience s = Fin 0"
    then have "parseExperience s = Fin (int 0)" by simp
    then show ?thesis by blast
  next
    assume "\<exists>ds. matchDigits s = Some ds \<and> ds \<noteq> [] \<and> list_all isDigit ds \<and>
              parseExperience s = toNumber (digitsVal ds)"
    then obtain ds where m: "matchDigits s = Some ds"
      and eq: "parseExperience s = toNumber (digitsVal ds)" by blast
    show ?thesis
    proof (cases "digitsVal ds < 2 ^ 1024 - 2 ^ 971")
      case True
      from toNumber_finite [OF True] obtain n where "toNumber (digitsVal ds) = Fin (int n)"
        by blast
      with eq have "parseExperience s = Fin (int n)" by (simp only:)
      then show ?thesis by blast
    next
      case False
      then have le: "2 ^ 1024 - 2 ^ 971 \<le> digitsVal ds" by (rule leI)
      from toNumber_cases [of "digitsVal ds"] show ?thesis
      proof
        assume "toNumber (digitsVal ds) = PosInf"
        with eq have "parseExperience s = PosInf" by (simp only:)
        with m le show ?thesis by blast
      next
        assume "\<exists>n. toNumber (digitsVal ds) = Fin (int n)"
        then obtain n where "toNumber (digitsVal ds) = Fin (int n)" by blast
        with eq have "parseExperience s = Fin (int n)" by (simp only:)
        then show ?thesis by blast
      qed
    qed
  qed
qed

lemma parseExperience_huge: "parseExperience (49 # replicate 309 48) = PosInf"
proof -
  have all: "list_all isDigit (49 # replicate 309 48)"
    by (auto simp add: isDigit_def list_all_iff)
  have "parseExperience ([] @ (49 # replicate 309 48) @ []) = toNumber (digitsVal (49 # replicate 309 48))"
    by (rule parseExperience_run [OF _ _ all]) simp_all
  moreover have "digitsVal (49 # replicate 309 48) = 10 ^ 309"
    by (simp add: digitsVal_def foldl_digits_zeros del: power_numeral)
  moreover have "(2::nat) ^ 1024 \<le> 10 ^ 309" by simp
  ultimately show ?thesis by (simp add: toNumber_overflow del: power_numeral)
qed

lemma processDoctor_parsed [simp]:
  "parsedFees (processDoctor raw) = parseFee (raw_fees raw)"
  "parsedExperience (processDoctor raw) = parseExperience (raw_experience raw)"
  by (simp_all add: processDoctor_def Let_def)

text \<open>
  C7, as amended. \<open>parseFee\<close> deletes every code unit that is neither a decimal digit
  nor a full stop and reads the leading digits of what is left; with no leading digit,
  which covers the empty input, the result is \<open>Infinity\<close>, otherwise it is the double
  nearest to the integer the digits denote. A non-empty string of digits alone whose
  value is below \<open>2 ^ 53\<close> maps to exactly that integer; the rupee sign, a space and
  500 map to 500, \<open>1,200\<close> maps to 1200, the empty string to \<open>Infinity\<close>.
\<close>

theorem parseFee_strips_and_parses:
  "parseFee s =
     (let ds = takeWhile isDigit (filter isDigitOrPoint s)
      in if ds = [] then PosInf else toNumber (digitsVal ds))
   \<and> (s \<noteq> [] \<and> list_all isDigit s \<and> digitsVal s < 2 ^ 53 \<longrightarrow>
        parseFee s = Fin (int (digitsVal s)))
   \<and> parseFee (8377 # ascii '' 500'') = Fin 500
   \<and> parseFee (ascii ''1,200'') = Fin 1200
   \<and> parseFee [] = PosInf"
proof -
  have general: "parseFee s =
     (let ds = takeWhile isDigit (filter isDigitOrPoint s)
      in if ds = [] then PosInf else toNumber (digitsVal ds))"
    by (rule parseFee_leading_digits)
  have digits: "parseFee s = Fin (int (digitsVal s))"
    if h: "s \<noteq> [] \<and> list_all isDigit s \<and> digitsVal s < 2 ^ 53"
  proof -
    from h have ne: "s \<noteq> []" and all: "\<forall>c\<in>set s. isDigit c"
      and small: "digitsVal s < 2 ^ 53"
      by (simp_all add: list_all_iff)
    from all have fl: "filter isDigitOrPoint s = s"
      by (simp add: isDigit_isDigitOrPoint)
    from all have tw: "takeWhile isDigit s = s"
      by simp
    have "parseFee s = toNumber (digitsVal s)"
      by (simp only: parseFee_leading_digits fl tw Let_def ne if_False)
    with small show ?thesis by (simp only: toNumber_exact)
  qed
  have rupee: "parseFee (8377 # ascii '' 500'') = Fin 500"
    by (simp add: parseFee_leading_digits isDigitOrPoint_def isDigit_def digitsVal_def
          toNumber_def)
  have comma: "parseFee (ascii ''1,200'') = Fin 1200"
    by (simp add: parseFee_leading_digits isDigitOrPoint_def isDigit_def digitsVal_def
          toNumber_def)
  have empty: "parseFee [] = PosInf"
    by (simp add: parseFee_def)
  from general digits rupee comma empty show ?thesis by blast
qed

theorem parseFee_strips_and_parses_witness:
  "ascii ''500'' \<noteq> [] \<and> list_all isDigit (ascii ''500'') \<and> digitsVal (ascii ''500'') < 2 ^ 53
   \<and> parseFee (ascii ''500'') = Fin 500"
proof -
  have h: "ascii ''500'' \<noteq> [] \<and> list_all isDigit (ascii ''500'')
           \<and> digitsVal (ascii ''500'') < 2 ^ 53"
    by (simp add: isDigit_def digitsVal_def)
  have v: "digitsVal (ascii ''500'') = 500"
    by (simp add: digitsVal_def)
  from parseFee_strips_and_parses [of "ascii ''500''"] h
  have "parseFee (ascii ''500'') = Fin (int (digitsVal (ascii ''500'')))" by blast
  with h v show ?thesis by simp
qed

text \<open>
  C7 as stated fails: the sixteen digits of \<open>2 ^ 53 + 1\<close> do not map to that integer
  but to its neighbour \<open>2 ^ 53\<close>, the nearest double.
\<close>

theorem parseFee_digits_counterexample:
  "ascii ''9007199254740993'' \<noteq> [] \<and> list_all isDigit (ascii ''9007199254740993'')
   \<and> parseFee (ascii ''9007199254740993'') = Fin 9007199254740992
   \<and> parseFee (ascii ''9007199254740993'') \<noteq> Fin (int (digitsVal (ascii ''9007199254740993'')))"
proof -
  have a: "list_all isDigit (ascii ''9007199254740993'')"
    by (simp add: isDigit_def)
  have b: "parseFee (ascii ''9007199254740993'') = Fin 9007199254740992"
    by (simp add: parseFee_leading_digits isDigitOrPoint_def isDigit_def digitsVal_def
          toNumber_def bitLength.simps Let_def)
  have c: "digitsVal (ascii ''9007199254740993'') = 9007199254740993"
    by (simp add: digitsVal_def)
  from a b c show ?thesis by simp
qed

text \<open>
  C8, as amended. When the string holds no decimal digit, the empty string included,
  \<open>parseExperience\<close> returns 0. Otherwise the string is some digit-free text, then a
  non-empty run of digits that ends at the end of the string or before a code unit that
  is no digit, then the rest; the result is the double nearest to the integer that this
  first maximal run denotes, and exactly that integer when it is below \<open>2 ^ 53\<close>.
  \<open>13 Years of experience\<close> maps to 13, \<open>experience unknown\<close> and the empty string
  to 0.
\<close>

theorem parseExperience_first_digit_run:
  "(list_all (\<lambda>c. \<not> isDigit c) s \<longrightarrow> parseExperience s = Fin 0)
   \<and> (list_all (\<lambda>c. \<not> isDigit c) pre \<and> run \<noteq> [] \<and> list_all isDigit run
        \<and> (post = [] \<or> \<not> isDigit (hd post)) \<longrightarrow>
        parseExperience (pre @ run @ post) = toNumber (digitsVal run)
        \<and> (digitsVal run < 2 ^ 53 \<longrightarrow>
             parseExperience (pre @ run @ post) = Fin (int (digitsVal run))))
   \<and> parseExperience (ascii ''13 Years of experience'') = Fin 13
   \<and> parseExperience (ascii ''experience unknown'') = Fin 0
   \<and> parseExperience [] = Fin 0"
proof -
  have none: "parseExperience s = Fin 0" if "list_all (\<lambda>c. \<not> isDigit c) s"
    using that by (rule parseExperience_None)
  have some: "parseExperience (pre @ run @ post) = toNumber (digitsVal run)
              \<and> (digitsVal run < 2 ^ 53 \<longrightarrow>
                   parseExperience (pre @ run @ post) = Fin (int (digitsVal run)))"
    if h: "list_all (\<lambda>c. \<not> isDigit c) pre \<and> run \<noteq> [] \<and> list_all isDigit run
           \<and> (post = [] \<or> \<not> isDigit (hd post))"
  proof -
    from h have "parseExperience (pre @ run @ post) = toNumber (digitsVal run)"
      by (intro parseExperience_run) simp_all
    then show ?thesis using toNumber_exact [of "digitsVal run"] by simp
  qed
  have years: "parseExperience (ascii ''13 Years of experience'') = Fin 13"
    by (simp add: parseExperience_def matchDigits_def parseInt10_def trimStart_def isNaN_def
          isStrWhiteSpaceChar_def isDigit_def digitsVal_def toNumberInt_def toNumber_def Let_def)
  have unknown: "parseExperience (ascii ''experience unknown'') = Fin 0"
    by (simp add: parseExperience_def matchDigits_def isNaN_def isDigit_def)
  have empty: "parseExperience [] = Fin 0"
    by (simp add: parseExperience_def)
  from none some years unknown empty show ?thesis by blast
qed

theorem parseExperience_first_digit_run_witness:
  "list_all (\<lambda>c. \<not> isDigit c) (ascii ''n/a'')
   \<and> parseExperience (ascii ''n/a'') = Fin 0
   \<and> list_all (\<lambda>c. \<not> isDigit c) (ascii ''over '') \<and> ascii ''25'' \<noteq> []
   \<and> list_all isDigit (ascii ''25'') \<and> \<not> isDigit (hd (ascii ''+ years, 3 clinics''))
   \<and> digitsVal (ascii ''25'') < 2 ^ 53
   \<and> parseExperience (ascii ''over '' @ ascii ''25'' @ ascii ''+ years, 3 clinics'') = Fin 25"
proof -
  have a: "list_all (\<lambda>c. \<not> isDigit c) (ascii ''n/a'')"
    by (simp add: isDigit_def)
  have b: "list_all (\<lambda>c. \<not> isDigit c) (ascii ''over '') \<and> ascii ''25'' \<noteq> []
           \<and> list_all isDigit (ascii ''25'')
           \<and> (ascii ''+ years, 3 clinics'' = [] \<or> \<not> isDigit (hd (ascii ''+ years, 3 clinics'')))"
    by (simp add: isDigit_def)
  have v: "digitsVal (ascii ''25'') = 25"
    by (simp add: digitsVal_def)
  have w: "digitsVal (ascii ''25'') < 2 ^ 53"
    by (simp only: v) simp
  note t = parseExperience_first_digit_run
             [of "ascii ''n/a''" "ascii ''over ''" "ascii ''25''" "ascii ''+ years, 3 clinics''"]
  from t a have r1: "parseExperience (ascii ''n/a'') = Fin 0" by blast
  from t b w
  have "parseExperience (ascii ''over '' @ ascii ''25'' @ ascii ''+ years, 3 clinics'')
          = Fin (int (digitsVal (ascii ''25'')))" by blast
  then have r2: "parseExperience (ascii ''over '' @ ascii ''25'' @ ascii ''+ years, 3 clinics'')
                   = Fin 25"
    by (simp only: v) simp
  have c: "\<not> isDigit (hd (ascii ''+ years, 3 clinics''))"
    by (simp add: isDigit_def)
  from a b c w r1 r2 show ?thesis by blast
qed

text \<open>
  C8 as stated fails: the first maximal digit run of the string below denotes
  \<open>2 ^ 53 + 1\<close>, and \<open>parseExperience\<close> returns \<open>2 ^ 53\<close>.
\<close>

theorem parseExperience_run_counterexample:
  "matchDigits (ascii ''9007199254740993 Years of experience'') = Some (ascii ''9007199254740993'')
   \<and> digitsVal (ascii ''9007199254740993'') = 9007199254740993
   \<and> parseExperience (ascii ''9007199254740993 Years of experience'') = Fin 9007199254740992"
proof -
  have a: "matchDigits (ascii ''9007199254740993 Years of experience'')
             = Some (ascii ''9007199254740993'')"
    by (simp add: matchDigits_def isDigit_def)
  have b: "digitsVal (ascii ''9007199254740993'') = 9007199254740993"
    by (simp add: digitsVal_def)
  have c: "parseInt10 (ascii ''9007199254740993'') = Fin 9007199254740992"
    by (simp add: parseInt10_def trimStart_def isStrWhiteSpaceChar_def isDigit_def digitsVal_def
          toNumberInt_def toNumber_def bitLength.simps Let_def)
  have d: "ascii ''9007199254740993 Years of experience'' \<noteq> []"
    by simp
  have "parseExperience (ascii ''9007199254740993 Years of experience'') = Fin 9007199254740992"
    by (simp only: parseExperience_def d if_False a option.case c Let_def isNaN_def) simp
  with a b show ?thesis by blast
qed

text \<open>
  C10, as amended. For every raw record the processed record's parsed fee is
  \<open>Infinity\<close> or a non-negative integer, and its parsed experience is a non-negative
  integer or, for a digit run beyond the range of a double (a first run of digits that
  denotes \<open>2 ^ 1024 - 2 ^ 971\<close> or more), \<open>Infinity\<close>; an experience text of at most
  308 code units always gives a non-negative integer. Every operation
  of \<open>processDoctor\<close> is defined on all strings, so it is a total function with no
  error value; \<open>number\<close> holds no fraction because \<open>parseInt\<close> yields none.
\<close>

theorem processDoctor_parsed_fields:
  "(parsedFees (processDoctor raw) = PosInf
      \<or> (\<exists>n. parsedFees (processDoctor raw) = Fin (int n)))
   \<and> (parsedExperience (processDoctor raw) = PosInf
      \<or> (\<exists>n. parsedExperience (processDoctor raw) = Fin (int n)))
   \<and> (length (raw_experience raw) \<le> 308 \<longrightarrow>
        (\<exists>n. parsedExperience (processDoctor raw) = Fin (int n)))
   \<and> ((\<exists>n. parsedExperience (processDoctor raw) = Fin (int n))
      \<or> (\<exists>ds. matchDigits (raw_experience raw) = Some ds
            \<and> 2 ^ 1024 - 2 ^ 971 \<le> digitsVal ds
            \<and> parsedExperience (processDoctor raw) = PosInf))"
  using parseFee_cases [of "raw_fees raw"] parseExperience_shape [of "raw_experience raw"]
    parseExperience_short [of "raw_experience raw"]
    parseExperience_infinite_beyond [of "raw_experience raw"]
  by (simp only: processDoctor_parsed) blast

theorem processDoctor_parsed_fields_witness:
  "length (raw_experience (sampleRaw (ascii ''Dr. A'') [] (ascii ''Rs 500'')
             (ascii ''13 Years of experience'') True False)) \<le> 308
   \<and> parsedExperience (processDoctor (sampleRaw (ascii ''Dr. A'') [] (ascii ''Rs 500'')
             (ascii ''13 Years of experience'') True False)) = Fin 13
   \<and> parsedFees (processDoctor (sampleRaw (ascii ''Dr. A'') [] (ascii ''Rs 500'')
             (ascii ''13 Years of experience'') True False)) = Fin 500"
proof -
  define raw where "raw = sampleRaw (ascii ''Dr. A'') [] (ascii ''Rs 500'')
                            (ascii ''13 Years of experience'') True False"
  have len: "length (raw_experience raw) \<le> 308"
    by (simp add: raw_def sampleRaw_def)
  from processDoctor_parsed_fields [of raw] len
  have "\<exists>n. parsedExperience (processDoctor raw) = Fin (int n)" by blast
  moreover have "parsedExperience (processDoctor raw) = Fin 13"
    by (simp add: raw_def sampleRaw_def parseExperience_def matchDigits_def parseInt10_def
          trimStart_def isNaN_def isStrWhiteSpaceChar_def isDigit_def digitsVal_def
          toNumberInt_def toNumber_def Let_def)
  moreover have "parsedFees (processDoctor raw) = Fin 500"
    by (simp add: raw_def sampleRaw_def parseFee_leading_digits isDigitOrPoint_def isDigit_def
          digitsVal_def toNumber_def)
  ultimately show ?thesis using len by (simp only: raw_def) 
qed

text \<open>
  C10 as stated fails: an experience text of a one and 309 zeros is parsed to
  \<open>Infinity\<close>, which is no integer.
\<close>

theorem processDoctor_experience_counterexample:
  "parsedExperience (processDoctor (sampleRaw (ascii ''Dr. A'') [] (ascii ''500'')
      (49 # replicate 309 48) True False)) = PosInf"
  by (simp add: sampleRaw_def parseExperience_huge del: ascii_Cons)

section \<open>The filter state and the URL\<close>

lemma keys_distinct [simp]:
  "SEARCH \<noteq> CONSULTATION" "SEARCH \<noteq> SPECIALTY" "SEARCH \<noteq> SORT"
  "CONSULTATION \<noteq> SEARCH" "CONSULTATION \<noteq> SPECIALTY" "CONSULTATION \<noteq> SORT"
  "SPECIALTY \<noteq> SEARCH" "SPECIALTY \<noteq> CONSULTATION" "SPECIALTY \<noteq> SORT"
  "SORT \<noteq> SEARCH" "SORT \<noteq> CONSULTATION" "SORT \<noteq> SPECIALTY"
  by (simp_all add: SEARCH_def CONSULTATION_def SPECIALTY_def SORT_def)

lemma criteria_distinct [simp]: "FEES \<noteq> EXPERIENCE" "EXPERIENCE \<noteq> FEES"
  by (simp_all add: FEES_def EXPERIENCE_def)

lemma modes_nonempty [simp]:
  "VIDEO_CONSULT \<noteq> []" "IN_CLINIC \<noteq> []" "[] \<noteq> VIDEO_CONSULT" "[] \<noteq> IN_CLINIC"
  "VIDEO_CONSULT \<noteq> IN_CLINIC" "IN_CLINIC \<noteq> VIDEO_CONSULT"
  by (simp_all add: VIDEO_CONSULT_def IN_CLINIC_def)

lemma toggleSortOption_twice:
  "toggleSortOption c (toggleSortOption c prev) =
     (if c \<in> set prev then filter (\<lambda>item. item \<noteq> c) prev @ [c] else prev)"
  by (auto simp add: toggleSortOption_def filter_id_conv)

lemma filter_out_last:
  assumes "distinct prev" and "c \<in> set prev"
  shows "filter (\<lambda>item. item \<noteq> c) prev @ [c] = prev \<longleftrightarrow> last prev = c"
proof
  assume "filter (\<lambda>item. item \<noteq> c) prev @ [c] = prev"
  then have "last prev = last (filter (\<lambda>item. item \<noteq> c) prev @ [c])" by simp
  then show "last prev = c" by simp
next
  assume l: "last prev = c"
  from assms(2) have ne: "prev \<noteq> []" by auto
  then have split: "prev = butlast prev @ [c]" using l by (metis append_butlast_last_id)
  with assms(1) have "c \<notin> set (butlast prev)"
    by (metis distinct_append distinct.simps(2) disjoint_iff list.set_intros(1))
  then have "filter (\<lambda>item. item \<noteq> c) (butlast prev) = butlast prev"
    by (auto simp add: filter_id_conv)
  then have "filter (\<lambda>item. item \<noteq> c) (butlast prev @ [c]) = butlast prev" by simp
  with split show "filter (\<lambda>item. item \<noteq> c) prev @ [c] = prev" by metis
qed



lemma reachable_consultation: "reachableFrom ps st \<Longrightarrow> consultationType st \<noteq> Some []"
proof (induction rule: reachableFrom.induct)
  case r_init
  then show ?case by (simp add: initialState_def split: option.splits)
next
  case (r_consultation st type)
  then show ?case by (auto simp add: handleSetConsultationType_def)
qed (simp_all add: handleSetSearchTerm_def handleToggleSortOption_def clearFilters_def
       handleToggleSpecialty_def updateSearchTermFromSuggestion_def Let_def)

lemma usv_ascii_keys [simp]:
  "toUSVString SEARCH = SEARCH" "toUSVString CONSULTATION = CONSULTATION"
  "toUSVString SPECIALTY = SPECIALTY" "toUSVString SORT = SORT"
  by (simp_all add: SEARCH_def CONSULTATION_def SPECIALTY_def SORT_def isHighSurrogate_def
        isLowSurrogate_def)

lemma toUSVString_Nil_iff [simp]: "toUSVString s = [] \<longleftrightarrow> s = []"
  by (induction s rule: toUSVString.induct) simp_all

lemma foldl_params_append:
  "foldl (\<lambda>p x. params_append k x p) p0 xs = p0 @ map (\<lambda>x. (toUSVString k, toUSVString x)) xs"
  by (induction xs arbitrary: p0) (simp_all add: params_append_def)

lemma map_of_tagged: "k' \<noteq> k \<Longrightarrow> map_of (map (\<lambda>x. (k, f x)) xs) k' = None"
  by (induction xs) simp_all

lemma getAll_Nil [simp]: "params_getAll k [] = []"
  by (simp add: params_getAll_def)

lemma getAll_Cons [simp]:
  "params_getAll k ((k', v) # ps) =
     (if k' = toUSVString k then v # params_getAll k ps else params_getAll k ps)"
  by (simp add: params_getAll_def)

lemma getAll_tagged:
  "params_getAll k' (map (\<lambda>x. (k, f x)) xs) = (if k = toUSVString k' then map f xs else [])"
  by (simp add: params_getAll_def filter_map comp_def)

lemma getAll_append: "params_getAll k (ps @ qs) = params_getAll k ps @ params_getAll k qs"
  by (simp add: params_getAll_def)

lemma set_newSet_aux: "set (foldl (\<lambda>s x. setAdd x s) acc xs) = set acc \<union> set xs"
  by (induction xs arbitrary: acc) (auto simp add: setAdd_def)

lemma set_newSet [simp]: "set (newSet xs) = set xs"
  by (simp add: newSet_def set_newSet_aux)

lemma updateSearchParams_eq:
  "updateSearchParams st =
     (if searchTerm st \<noteq> [] then [(SEARCH, toUSVString (searchTerm st))] else [])
     @ (case consultationType st of None \<Rightarrow> []
        | Some t \<Rightarrow> if t \<noteq> [] then [(CONSULTATION, toUSVString t)] else [])
     @ map (\<lambda>x. (SPECIALTY, toUSVString x)) (selectedSpecialties st)
     @ map (\<lambda>x. (SORT, toUSVString x)) (sortOptions st)"
  by (simp add: updateSearchParams_def params_set_def foldl_params_append split: option.splits)

lemma roundtrip:
  assumes "consultationType st \<noteq> Some []"
  shows "searchTerm (initialState (updateSearchParams st)) = toUSVString (searchTerm st)"
    and "consultationType (initialState (updateSearchParams st))
           = map_option toUSVString (consultationType st)"
    and "set (selectedSpecialties (initialState (updateSearchParams st)))
           = toUSVString ` set (selectedSpecialties st)"
    and "sortOptions (initialState (updateSearchParams st)) = map toUSVString (sortOptions st)"
  using assms
  by (auto simp add: initialState_def updateSearchParams_eq params_get_def map_of_tagged
        getAll_append getAll_tagged map_add_def split: option.splits)

lemma map_wellFormed: "list_all wellFormed xs \<Longrightarrow> map toUSVString xs = xs"
  by (induction xs) (simp_all add: wellFormed_def)

lemma sortOptions_update_id:
  "st\<lparr>sortOptions := opts\<rparr> = st \<longleftrightarrow> opts = sortOptions st"
  by (cases st) auto

text \<open>
  C2, as amended. Toggling a criterion twice restores the state exactly when the
  criterion was not active. When it was active, the first toggle removes it and the
  second appends it: the state ends with the criterion moved to the end of the sequence,
  which is the original state only if the criterion already stood last (given that no
  criterion is repeated).
\<close>

theorem toggleSortOption_twice_state:
  "(option \<notin> set (sortOptions st) \<longrightarrow>
      handleToggleSortOption option (handleToggleSortOption option st) = st)
   \<and> (option \<in> set (sortOptions st) \<longrightarrow>
      handleToggleSortOption option (handleToggleSortOption option st)
        = st\<lparr>sortOptions := filter (\<lambda>item. item \<noteq> option) (sortOptions st) @ [option]\<rparr>)
   \<and> (option \<in> set (sortOptions st) \<and> distinct (sortOptions st) \<longrightarrow>
      (handleToggleSortOption option (handleToggleSortOption option st) = st
         \<longleftrightarrow> last (sortOptions st) = option))"
proof -
  have eq: "handleToggleSortOption option (handleToggleSortOption option st)
              = st\<lparr>sortOptions := toggleSortOption option (toggleSortOption option (sortOptions st))\<rparr>"
    by (simp add: handleToggleSortOption_def)
  have absent: "handleToggleSortOption option (handleToggleSortOption option st) = st"
    if "option \<notin> set (sortOptions st)"
    using that by (simp add: eq toggleSortOption_twice)
  have present: "handleToggleSortOption option (handleToggleSortOption option st)
        = st\<lparr>sortOptions := filter (\<lambda>item. item \<noteq> option) (sortOptions st) @ [option]\<rparr>"
    if "option \<in> set (sortOptions st)"
    using that by (simp add: eq toggleSortOption_twice)
  have restored: "handleToggleSortOption option (handleToggleSortOption option st) = st
         \<longleftrightarrow> last (sortOptions st) = option"
    if h: "option \<in> set (sortOptions st) \<and> distinct (sortOptions st)"
  proof -
    from h have "filter (\<lambda>item. item \<noteq> option) (sortOptions st) @ [option] = sortOptions st
                   \<longleftrightarrow> last (sortOptions st) = option"
      by (intro filter_out_last) simp_all
    with h show ?thesis by (simp only: present sortOptions_update_id)
  qed
  from absent present restored show ?thesis by blast
qed

text \<open>Both cases at concrete states: fees absent, and experience active in last place.\<close>

theorem toggleSortOption_twice_state_witness:
  "FEES \<notin> set (sortOptions (initialState [(SORT, EXPERIENCE)]))
   \<and> handleToggleSortOption FEES (handleToggleSortOption FEES (initialState [(SORT, EXPERIENCE)]))
       = initialState [(SORT, EXPERIENCE)]
   \<and> EXPERIENCE \<in> set (sortOptions (initialState [(SORT, FEES), (SORT, EXPERIENCE)]))
   \<and> distinct (sortOptions (initialState [(SORT, FEES), (SORT, EXPERIENCE)]))
   \<and> last (sortOptions (initialState [(SORT, FEES), (SORT, EXPERIENCE)])) = EXPERIENCE
   \<and> handleToggleSortOption EXPERIENCE
         (handleToggleSortOption EXPERIENCE (initialState [(SORT, FEES), (SORT, EXPERIENCE)]))
       = initialState [(SORT, FEES), (SORT, EXPERIENCE)]"
proof -
  have a: "FEES \<notin> set (sortOptions (initialState [(SORT, EXPERIENCE)]))"
    by (simp add: initialState_def)
  have b: "EXPERIENCE \<in> set (sortOptions (initialState [(SORT, FEES), (SORT, EXPERIENCE)]))
           \<and> distinct (sortOptions (initialState [(SORT, FEES), (SORT, EXPERIENCE)]))"
    by (simp add: initialState_def)
  have c: "last (sortOptions (initialState [(SORT, FEES), (SORT, EXPERIENCE)])) = EXPERIENCE"
    by (simp add: initialState_def)
  from toggleSortOption_twice_state [of FEES "initialState [(SORT, EXPERIENCE)]"] a
  have r1: "handleToggleSortOption FEES (handleToggleSortOption FEES (initialState [(SORT, EXPERIENCE)]))
              = initialState [(SORT, EXPERIENCE)]" by blast
  from toggleSortOption_twice_state [of EXPERIENCE "initialState [(SORT, FEES), (SORT, EXPERIENCE)]"] b c
  have r2: "handleToggleSortOption EXPERIENCE
         (handleToggleSortOption EXPERIENCE (initialState [(SORT, FEES), (SORT, EXPERIENCE)]))
       = initialState [(SORT, FEES), (SORT, EXPERIENCE)]" by blast
  from a b c r1 r2 show ?thesis by blast
qed

text \<open>
  C2 as stated fails: with fees then experience active, toggling fees twice leaves
  experience then fees.
\<close>

theorem toggleSortOption_twice_counterexample:
  "sortOptions (handleToggleSortOption EXPERIENCE (handleToggleSortOption FEES (initialState [])))
     = [FEES, EXPERIENCE]
   \<and> sortOptions (handleToggleSortOption FEES (handleToggleSortOption FEES
        (handleToggleSortOption EXPERIENCE (handleToggleSortOption FEES (initialState [])))))
     = [EXPERIENCE, FEES]
   \<and> handleToggleSortOption FEES (handleToggleSortOption FEES
        (handleToggleSortOption EXPERIENCE (handleToggleSortOption FEES (initialState []))))
     \<noteq> handleToggleSortOption EXPERIENCE (handleToggleSortOption FEES (initialState []))"
proof -
  have a: "sortOptions (handleToggleSortOption EXPERIENCE (handleToggleSortOption FEES (initialState [])))
     = [FEES, EXPERIENCE]"
    by (simp add: handleToggleSortOption_def toggleSortOption_def initialState_def)
  have b: "sortOptions (handleToggleSortOption FEES (handleToggleSortOption FEES
        (handleToggleSortOption EXPERIENCE (handleToggleSortOption FEES (initialState [])))))
     = [EXPERIENCE, FEES]"
    by (simp add: handleToggleSortOption_def toggleSortOption_def initialState_def)
  have "[EXPERIENCE, FEES] \<noteq> [FEES, EXPERIENCE]" by simp
  with a b show ?thesis by metis
qed

text \<open>
  C3, as amended. For every reachable state, initialising from the query parameters
  that the state is written to yields the state with each string converted to a
  scalar-value string: the same search term, consultation type, set of specialties and
  sequence of sort options whenever the state's strings are well-formed UTF-16.
\<close>

theorem url_round_trip:
  "reachableFrom searchParams st \<Longrightarrow>
   (searchTerm (initialState (updateSearchParams st)) = toUSVString (searchTerm st)
    \<and> consultationType (initialState (updateSearchParams st))
          = map_option toUSVString (consultationType st)
    \<and> set (selectedSpecialties (initialState (updateSearchParams st)))
          = toUSVString ` set (selectedSpecialties st)
    \<and> sortOptions (initialState (updateSearchParams st)) = map toUSVString (sortOptions st))
   \<and> (wellFormedState st \<longrightarrow>
        searchTerm (initialState (updateSearchParams st)) = searchTerm st
        \<and> consultationType (initialState (updateSearchParams st)) = consultationType st
        \<and> set (selectedSpecialties (initialState (updateSearchParams st)))
              = set (selectedSpecialties st)
        \<and> sortOptions (initialState (updateSearchParams st)) = sortOptions st)"
proof -
  assume r: "reachableFrom searchParams st"
  note rt = roundtrip [OF reachable_consultation [OF r]]
  have wf: "searchTerm (initialState (updateSearchParams st)) = searchTerm st
        \<and> consultationType (initialState (updateSearchParams st)) = consultationType st
        \<and> set (selectedSpecialties (initialState (updateSearchParams st)))
              = set (selectedSpecialties st)
        \<and> sortOptions (initialState (updateSearchParams st)) = sortOptions st"
    if w: "wellFormedState st"
  proof -
    from w have a: "toUSVString (searchTerm st) = searchTerm st"
      by (simp add: wellFormedState_def wellFormed_def)
    from w have b: "map_option toUSVString (consultationType st) = consultationType st"
      by (cases "consultationType st") (simp_all add: wellFormedState_def wellFormed_def)
    from w have c: "map toUSVString (selectedSpecialties st) = selectedSpecialties st"
      by (simp add: wellFormedState_def map_wellFormed)
    from w have d: "map toUSVString (sortOptions st) = sortOptions st"
      by (simp add: wellFormedState_def map_wellFormed)
    have "toUSVString ` set (selectedSpecialties st) = set (map toUSVString (selectedSpecialties st))"
      by simp
    then have c': "toUSVString ` set (selectedSpecialties st) = set (selectedSpecialties st)"
      by (simp only: c)
    show ?thesis by (simp only: rt a b c' d simp_thms)
  qed
  from rt wf show ?thesis by blast
qed

text \<open>A reachable, well-formed state and its round trip.\<close>

theorem url_round_trip_witness:
  "reachableFrom [(SEARCH, ascii ''an''), (SPECIALTY, ascii ''Dentist'')]
     (handleToggleSortOption FEES (initialState [(SEARCH, ascii ''an''), (SPECIALTY, ascii ''Dentist'')]))
   \<and> wellFormedState
        (handleToggleSortOption FEES (initialState [(SEARCH, ascii ''an''), (SPECIALTY, ascii ''Dentist'')]))
   \<and> searchTerm (initialState (updateSearchParams
        (handleToggleSortOption FEES
           (initialState [(SEARCH, ascii ''an''), (SPECIALTY, ascii ''Dentist'')])))) = ascii ''an''
   \<and> sortOptions (initialState (updateSearchParams
        (handleToggleSortOption FEES
           (initialState [(SEARCH, ascii ''an''), (SPECIALTY, ascii ''Dentist'')])))) = [FEES]"
proof -
  define ps where "ps = [(SEARCH, ascii ''an''), (SPECIALTY, ascii ''Dentist'')]"
  define st where "st = handleToggleSortOption FEES (initialState ps)"
  have r: "reachableFrom ps st"
    unfolding st_def by (intro reachableFrom.r_sort reachableFrom.r_init) simp
  have a: "searchTerm st = ascii ''an''"
    by (simp add: st_def ps_def handleToggleSortOption_def initialState_def params_get_def)
  have b: "sortOptions st = [FEES]"
    by (simp add: st_def ps_def handleToggleSortOption_def initialState_def toggleSortOption_def)
  have w: "wellFormedState st"
    by (simp add: st_def ps_def handleToggleSortOption_def initialState_def toggleSortOption_def
          params_get_def wellFormedState_def wellFormed_def newSet_def setAdd_def FEES_def
          isHighSurrogate_def isLowSurrogate_def)
  from url_round_trip [OF r] w a b
  have "searchTerm (initialState (updateSearchParams st)) = ascii ''an''
        \<and> sortOptions (initialState (updateSearchParams st)) = [FEES]" by metis
  with r w show ?thesis by (simp only: st_def ps_def)
qed

text \<open>
  C3 as stated fails: a search term that is one unpaired high surrogate (U+D800) comes
  back as U+FFFD.
\<close>

theorem url_round_trip_counterexample:
  "reachableFrom [] (handleSetSearchTerm [55296] (initialState []))
   \<and> searchTerm (handleSetSearchTerm [55296] (initialState [])) = [55296]
   \<and> searchTerm (initialState (updateSearchParams (handleSetSearchTerm [55296] (initialState []))))
        = [65533]"
proof -
  have r: "reachableFrom [] (handleSetSearchTerm [55296] (initialState []))"
    by (intro reachableFrom.r_search reachableFrom.r_init)
  have a: "searchTerm (handleSetSearchTerm [55296] (initialState [])) = [55296]"
    by (simp add: handleSetSearchTerm_def)
  have b: "searchTerm (initialState (updateSearchParams (handleSetSearchTerm [55296] (initialState []))))
        = [65533]"
    by (simp add: handleSetSearchTerm_def initialState_def updateSearchParams_def params_set_def
          params_get_def newSet_def isHighSurrogate_def)
  from r a b show ?thesis by blast
qed




text \<open>
  C5, as amended. The initial consultation type is the first value of the
  \<open>consultation\<close> parameter when that is present and not empty, whatever it is: the
  two modes map to themselves, absence and the empty value map to none, and any other
  value is taken as it stands.
\<close>

theorem consultation_from_url:
  "(params_get CONSULTATION searchParams = Some VIDEO_CONSULT \<longrightarrow>
      consultationType (initialState searchParams) = Some VIDEO_CONSULT)
   \<and> (params_get CONSULTATION searchParams = Some IN_CLINIC \<longrightarrow>
      consultationType (initialState searchParams) = Some IN_CLINIC)
   \<and> (params_get CONSULTATION searchParams = None \<or> params_get CONSULTATION searchParams = Some [] \<longrightarrow>
      consultationType (initialState searchParams) = None)
   \<and> (params_get CONSULTATION searchParams = Some v \<and> v \<noteq> [] \<longrightarrow>
      consultationType (initialState searchParams) = Some v)"
  by (auto simp add: initialState_def)

text \<open>Each of the two modes, one of them among other parameters, and a query without the parameter.\<close>

theorem consultation_from_url_witness:
  "params_get CONSULTATION [(CONSULTATION, VIDEO_CONSULT)] = Some VIDEO_CONSULT
   \<and> VIDEO_CONSULT \<noteq> []
   \<and> consultationType (initialState [(CONSULTATION, VIDEO_CONSULT)]) = Some VIDEO_CONSULT
   \<and> params_get CONSULTATION [(SEARCH, ascii ''an''), (CONSULTATION, IN_CLINIC)] = Some IN_CLINIC
   \<and> consultationType (initialState [(SEARCH, ascii ''an''), (CONSULTATION, IN_CLINIC)]) = Some IN_CLINIC
   \<and> params_get CONSULTATION [(SEARCH, ascii ''an'')] = None
   \<and> consultationType (initialState [(SEARCH, ascii ''an'')]) = None"
proof -
  have v: "params_get CONSULTATION [(CONSULTATION, VIDEO_CONSULT)] = Some VIDEO_CONSULT
           \<and> VIDEO_CONSULT \<noteq> []"
    by (simp add: params_get_def)
  have a: "params_get CONSULTATION [(SEARCH, ascii ''an''), (CONSULTATION, IN_CLINIC)] = Some IN_CLINIC"
    by (simp add: params_get_def)
  have b: "params_get CONSULTATION [(SEARCH, ascii ''an'')] = None"
    by (simp add: params_get_def)
  from consultation_from_url [of "[(CONSULTATION, VIDEO_CONSULT)]" VIDEO_CONSULT] v
  have r0: "consultationType (initialState [(CONSULTATION, VIDEO_CONSULT)]) = Some VIDEO_CONSULT"
    by blast
  from consultation_from_url [of "[(SEARCH, ascii ''an''), (CONSULTATION, IN_CLINIC)]"] a
  have r1: "consultationType (initialState [(SEARCH, ascii ''an''), (CONSULTATION, IN_CLINIC)]) = Some IN_CLINIC"
    by blast
  from consultation_from_url [of "[(SEARCH, ascii ''an'')]"] b
  have r2: "consultationType (initialState [(SEARCH, ascii ''an'')]) = None"
    by blast
  from v a b r0 r1 r2 show ?thesis by blast
qed

text \<open>C5 as stated fails: the value \<open>Phone\<close> is neither mode and is not mapped to none.\<close>

theorem consultation_from_url_counterexample:
  "ascii ''Phone'' \<noteq> VIDEO_CONSULT \<and> ascii ''Phone'' \<noteq> IN_CLINIC
   \<and> params_get CONSULTATION [(CONSULTATION, ascii ''Phone'')] = Some (ascii ''Phone'')
   \<and> consultationType (initialState [(CONSULTATION, ascii ''Phone'')]) = Some (ascii ''Phone'')"
  by (simp add: initialState_def params_get_def VIDEO_CONSULT_def IN_CLINIC_def)

section \<open>Filtering, suggestions and sorting\<close>

lemma startsWith_iff: "startsWith s needle \<longleftrightarrow> (\<exists>post. s = needle @ post)"
  by (induction s needle rule: startsWith.induct) auto

lemma includesStr_iff: "includesStr s needle \<longleftrightarrow> (\<exists>pre post. s = pre @ needle @ post)"
proof (induction s)
  case Nil
  then show ?case by simp
next
  case (Cons x xs)
  show ?case
  proof
    assume "includesStr (x # xs) needle"
    then consider "startsWith (x # xs) needle" | "includesStr xs needle" by auto
    then show "\<exists>pre post. x # xs = pre @ needle @ post"
    proof cases
      case 1
      then obtain post where "x # xs = needle @ post" by (auto simp add: startsWith_iff)
      then have "x # xs = [] @ needle @ post" by simp
      then show ?thesis by blast
    next
      case 2
      then obtain pre post where "xs = pre @ needle @ post" using Cons.IH by blast
      then have "x # xs = (x # pre) @ needle @ post" by simp
      then show ?thesis by blast
    qed
  next
    assume "\<exists>pre post. x # xs = pre @ needle @ post"
    then obtain pre post where eq: "x # xs = pre @ needle @ post" by blast
    show "includesStr (x # xs) needle"
    proof (cases pre)
      case Nil
      with eq have "startsWith (x # xs) needle" by (auto simp add: startsWith_iff)
      then show ?thesis by simp
    next
      case (Cons p pre')
      with eq have "xs = pre' @ needle @ post" by simp
      then have "includesStr xs needle" using Cons.IH by blast
      then show ?thesis by simp
    qed
  qed
qed







lemma startsWithIgnoringCase_iff:
  "startsWithIgnoringCase s t \<longleftrightarrow> (\<exists>mid post. s = mid @ post \<and> list_all2 sameIgnoringCase mid t)"
proof (induction s t rule: startsWithIgnoringCase.induct)
  case (1 s)
  then show ?case by simp
next
  case (2 y ys)
  then show ?case by simp
next
  case (3 x xs y ys)
  show ?case
  proof
    assume "startsWithIgnoringCase (x # xs) (y # ys)"
    then have xy: "sameIgnoringCase x y" and "startsWithIgnoringCase xs ys" by simp_all
    then obtain mid post where "xs = mid @ post" "list_all2 sameIgnoringCase mid ys"
      using "3.IH" by blast
    then have "x # xs = (x # mid) @ post \<and> list_all2 sameIgnoringCase (x # mid) (y # ys)"
      using xy by simp
    then show "\<exists>mid post. x # xs = mid @ post \<and> list_all2 sameIgnoringCase mid (y # ys)"
      by blast
  next
    assume "\<exists>mid post. x # xs = mid @ post \<and> list_all2 sameIgnoringCase mid (y # ys)"
    then obtain mid post where eq: "x # xs = mid @ post"
      and all: "list_all2 sameIgnoringCase mid (y # ys)" by blast
    from all obtain m mid' where mid: "mid = m # mid'" "sameIgnoringCase m y"
      "list_all2 sameIgnoringCase mid' ys"
      by (auto simp add: list_all2_Cons2)
    with eq have "x = m" "xs = mid' @ post" by simp_all
    with mid show "startsWithIgnoringCase (x # xs) (y # ys)"
      using "3.IH" by auto
  qed
qed

lemma includesIgnoringCase_iff:
  "includesIgnoringCase s t
     \<longleftrightarrow> (\<exists>pre mid post. s = pre @ mid @ post \<and> list_all2 sameIgnoringCase mid t)"
proof (induction s)
  case Nil
  then show ?case by auto
next
  case (Cons x xs)
  show ?case
  proof
    assume "includesIgnoringCase (x # xs) t"
    then consider "startsWithIgnoringCase (x # xs) t" | "includesIgnoringCase xs t" by auto
    then show "\<exists>pre mid post. x # xs = pre @ mid @ post \<and> list_all2 sameIgnoringCase mid t"
    proof cases
      case 1
      then obtain mid post where "x # xs = mid @ post" "list_all2 sameIgnoringCase mid t"
        by (auto simp add: startsWithIgnoringCase_iff)
      then have "x # xs = [] @ mid @ post \<and> list_all2 sameIgnoringCase mid t" by simp
      then show ?thesis by blast
    next
      case 2
      then obtain pre mid post where "xs = pre @ mid @ post" "list_all2 sameIgnoringCase mid t"
        using Cons.IH by blast
      then have "x # xs = (x # pre) @ mid @ post \<and> list_all2 sameIgnoringCase mid t" by simp
      then show ?thesis by blast
    qed
  next
    assume "\<exists>pre mid post. x # xs = pre @ mid @ post \<and> list_all2 sameIgnoringCase mid t"
    then obtain pre mid post where eq: "x # xs = pre @ mid @ post"
      and all: "list_all2 sameIgnoringCase mid t" by blast
    show "includesIgnoringCase (x # xs) t"
    proof (cases pre)
      case Nil
      with eq all have "startsWithIgnoringCase (x # xs) t"
        by (auto simp add: startsWithIgnoringCase_iff)
      then show ?thesis by simp
    next
      case (Cons p pre')
      with eq have "xs = pre' @ mid @ post" by simp
      with all have "includesIgnoringCase xs t" using Cons.IH by blast
      then show ?thesis by simp
    qed
  qed
qed








lemmas eval_defs =
  processedDoctors_def processDoctor_def sampleRaw_def Let_def
  parseFee_leading_digits parseExperience_def matchDigits_def parseInt10_def trimStart_def
  isNaN_def isStrWhiteSpaceChar_def isDigit_def isDigitOrPoint_def digitsVal_def
  toNumberInt_def toNumber_def VIDEO_CONSULT_def IN_CLINIC_def









text \<open>
  Where the comparator is right: for two records of which at most one has an infinite
  fee and at most one an infinite experience, the sign of what the sort reads from
  \<open>compareDoctors\<close> is the verdict of the specification's chain, for every sequence
  of criteria.
\<close>

lemma toNumber_sign: "signOf (toNumber n) = sgn (int n)"
proof (cases "n < 2 ^ 53")
  case True
  then show ?thesis by (simp add: toNumber_exact)
next
  case False
  define e where "e = bitLength n - 53"
  define q where "q = n div 2 ^ e"
  define q' where "q' = (if 2 ^ (e - 1) < n mod 2 ^ e \<or> (n mod 2 ^ e = 2 ^ (e - 1) \<and> odd q)
                         then q + 1 else q)"
  have n0: "n \<noteq> 0" using False by auto
  have "(2::nat) ^ 53 \<le> n" using False by simp
  also have "n < 2 ^ bitLength n" using bitLength_bounds [OF n0] by simp
  finally have "53 < bitLength n"
    by (simp only: power_strict_increasing_iff one_less_numeral_iff semiring_norm)
  then have "e \<le> bitLength n - 1" by (simp add: e_def)
  then have "(2::nat) ^ e \<le> 2 ^ (bitLength n - 1)" by (rule power_increasing) simp
  also have "\<dots> \<le> n" using bitLength_bounds [OF n0] by simp
  finally have "1 \<le> q" unfolding q_def
    by (simp add: less_eq_div_iff_mult_less_eq)
  then have "0 < q' * 2 ^ e" by (simp add: q'_def)
  moreover have "toNumber n = (if 2 ^ 1024 \<le> q' * 2 ^ e then PosInf else Fin (int (q' * 2 ^ e)))"
    using False
    by (simp only: toNumber_def Let_def if_False e_def [symmetric] q_def [symmetric]
          q'_def [symmetric])
  ultimately show ?thesis using n0 by (simp del: power_numeral of_nat_mult of_nat_power)
qed

lemma negate_sign: "signOf (negate v) = - signOf v"
  by (cases v) simp_all

lemma toNumberInt_sign: "signOf (toNumberInt d) = sgn d"
proof (cases "d < 0")
  case True
  then have "sgn (int (nat (- d))) = 1" by simp
  with True show ?thesis by (simp add: toNumberInt_def negate_sign toNumber_sign del: of_nat_nat)
next
  case False
  then show ?thesis by (simp add: toNumberInt_def toNumber_sign)
qed

lemma toNumberInt_zero: "toNumberInt d = Fin 0 \<longleftrightarrow> d = 0"
proof
  assume "toNumberInt d = Fin 0"
  then have "signOf (toNumberInt d) = 0" by simp
  then show "d = 0" by (simp add: toNumberInt_sign sgn_0_0)
next
  assume "d = 0"
  then show "toNumberInt d = Fin 0" by (simp add: toNumberInt_def toNumber_exact)
qed

lemma negate_NaN [simp]: "negate v = NaN \<longleftrightarrow> v = NaN"
  by (cases v) simp_all

lemma toNumberInt_not_NaN [simp]: "toNumberInt d \<noteq> NaN"
  by (simp add: toNumberInt_def)

lemma isPositive_sign: "isPositive v \<longleftrightarrow> signOf v = 1"
  by (cases v) (simp_all add: sgn_1_pos)

lemma subtract_canonical:
  assumes "canonicalNumber x" and "canonicalNumber y" and "\<not> (x = PosInf \<and> y = PosInf)"
  shows "subtract x y \<noteq> NaN"
    and "subtract x y = Fin 0 \<longleftrightarrow> \<not> specLess x y \<and> \<not> specLess y x"
    and "signOf (subtract x y) = (if specLess x y then - 1 else if specLess y x then 1 else 0)"
proof -
  from assms consider (ff) a b where "x = Fin (int a)" "y = Fin (int b)"
    | (fi) a where "x = Fin (int a)" "y = PosInf"
    | (inf) b where "x = PosInf" "y = Fin (int b)"
    by (auto simp add: canonicalNumber_def)
  then have "subtract x y \<noteq> NaN
      \<and> (subtract x y = Fin 0 \<longleftrightarrow> \<not> specLess x y \<and> \<not> specLess y x)
      \<and> signOf (subtract x y) = (if specLess x y then - 1 else if specLess y x then 1 else 0)"
  proof cases
    case ff
    show ?thesis
      using ff by (auto simp add: toNumberInt_zero toNumberInt_sign)
  next
    case fi
    then show ?thesis by simp
  next
    case inf
    then show ?thesis by simp
  qed
  then show "subtract x y \<noteq> NaN"
    and "subtract x y = Fin 0 \<longleftrightarrow> \<not> specLess x y \<and> \<not> specLess y x"
    and "signOf (subtract x y) = (if specLess x y then - 1 else if specLess y x then 1 else 0)"
    by blast+
qed

lemma compareDoctors_agrees_with_chain:
  assumes "canonicalNumber (parsedFees a)" "canonicalNumber (parsedFees b)"
    and "canonicalNumber (parsedExperience a)" "canonicalNumber (parsedExperience b)"
    and "\<not> (parsedFees a = PosInf \<and> parsedFees b = PosInf)"
    and "\<not> (parsedExperience a = PosInf \<and> parsedExperience b = PosInf)"
  shows "signOf (SortCompare (compareDoctors opts) a b) = specChain opts a b"
proof -
  note f = subtract_canonical [OF assms(1,2,5)]
  have e': "\<not> (parsedExperience b = PosInf \<and> parsedExperience a = PosInf)"
    using assms(6) by blast
  note e = subtract_canonical [OF assms(4,3) e']
  have nn: "compareDoctors opts a b \<noteq> NaN"
    by (induction opts) (simp_all add: Let_def f(1) e(1))
  have "signOf (compareDoctors opts a b) = specChain opts a b"
  proof (induction opts)
    case Nil
    then show ?case by simp
  next
    case (Cons option rest)
    show ?case
      using Cons.IH f(2,3) e(2,3)
      by (simp add: Let_def specCriterion_def)
  qed
  with nn show ?thesis by (simp add: SortCompare_def isNaN_def)
qed

text \<open>
  C1 fails on the code. Two records without a fee both parse to \<open>Infinity\<close>; under
  fees then experience the comparator computes \<open>Infinity - Infinity\<close>, which is NaN
  and not \<open>0\<close>, and returns it without looking at experience. The sort reads NaN as
  a tie and leaves the record with 2 years before the record with 10 years, where the
  chain of the specification puts the record with 10 years first.
\<close>

theorem sort_skips_experience_when_fees_unparseable:
  "map parsedFees unparseableFeeDoctors = [PosInf, PosInf]
   \<and> map parsedExperience unparseableFeeDoctors = [Fin 2, Fin 10]
   \<and> sortOptions feesThenExperience = [FEES, EXPERIENCE]
   \<and> reachableFrom [] feesThenExperience
   \<and> compareDoctors [FEES, EXPERIENCE] (unparseableFeeDoctors ! 0) (unparseableFeeDoctors ! 1) = NaN
   \<and> filteredDoctors asciiLower unparseableFeeDoctors feesThenExperience = unparseableFeeDoctors
   \<and> specChain [FEES, EXPERIENCE] (unparseableFeeDoctors ! 1) (unparseableFeeDoctors ! 0) = - 1"
proof -
  have f: "map parsedFees unparseableFeeDoctors = [PosInf, PosInf]"
    by (simp add: unparseableFeeDoctors_def eval_defs)
  have e: "map parsedExperience unparseableFeeDoctors = [Fin 2, Fin 10]"
    by (simp add: unparseableFeeDoctors_def eval_defs)
  have s: "sortOptions feesThenExperience = [FEES, EXPERIENCE]"
    by (simp add: feesThenExperience_def handleToggleSortOption_def toggleSortOption_def
          initialState_def)
  have r: "reachableFrom [] feesThenExperience"
    unfolding feesThenExperience_def
    by (intro reachableFrom.r_sort reachableFrom.r_init) simp_all
  have len: "length unparseableFeeDoctors = 2"
    by (simp add: unparseableFeeDoctors_def processedDoctors_def)
  obtain a b where ab: "unparseableFeeDoctors = [a, b]"
    using len by (metis (no_types) length_0_conv length_Suc_conv numeral_2_eq_2)
  from f [unfolded ab] e [unfolded ab] have vals: "parsedFees a = PosInf" "parsedFees b = PosInf"
    "parsedExperience a = Fin 2" "parsedExperience b = Fin 10" by simp_all
  have c: "compareDoctors [FEES, EXPERIENCE] a b = NaN"
    by (simp add: vals)
  have st: "searchTerm feesThenExperience = [] \<and> consultationType feesThenExperience = None
            \<and> selectedSpecialties feesThenExperience = []"
    by (simp add: feesThenExperience_def handleToggleSortOption_def initialState_def params_get_def
          newSet_def)
  have fd: "filteredDoctors asciiLower [a, b] feesThenExperience = [a, b]"
    by (simp add: filteredDoctors_def st s arraySort_def SortCompare_def isNaN_def c
          del: compareDoctors.simps)
  have sc: "specChain [FEES, EXPERIENCE] b a = - 1"
    by (simp add: specCriterion_def vals)
  from f e s r c fd sc show ?thesis by (simp add: ab)
qed

end
